theory Spec2Isabelle
  imports Main "HOL-Library.Word" "HOL-Library.List_Lexorder" "HOL-Library.Multiset"
begin

section \<open>JavaScript strings\<close>

text \<open>
  A JavaScript string is a sequence of UTF-16 code units. The comparison behind
  \<^verbatim>\<open>Array.prototype.sort()\<close> without a comparator is the lexicographic order of the
  code units, a proper prefix being smaller; that is the order of lists over the
  (unsigned) order of \<open>16 word\<close>.
\<close>

type_synonym jsstring = "16 word list"

definition js :: "string \<Rightarrow> jsstring" where
  "js s = map of_char s"

text \<open>
  \<^verbatim>\<open>String.prototype.trim\<close> removes WhiteSpace and LineTerminator code points from both
  ends: TAB, LF, VT, FF, CR, SPACE, NBSP, U+1680, U+2000..U+200A, U+2028, U+2029, U+202F,
  U+205F, U+3000 and U+FEFF.
\<close>

definition isWhiteSpace :: "16 word \<Rightarrow> bool" where
  "isWhiteSpace c \<longleftrightarrow>
     c \<in> {0x09, 0x0A, 0x0B, 0x0C, 0x0D, 0x20, 0xA0, 0x1680, 0x2028, 0x2029, 0x202F, 0x205F,
          0x3000, 0xFEFF}
     \<or> (0x2000 \<le> c \<and> c \<le> 0x200A)"

definition trim :: "jsstring \<Rightarrow> jsstring" where
  "trim s = rev (dropWhile isWhiteSpace (rev (dropWhile isWhiteSpace s)))"

text \<open>
  \<^verbatim>\<open>s.split(d)\<close> for a separator of one code unit: the pieces between the separators,
  empty pieces included (\<^verbatim>\<open>"a;".split(";")\<close> is \<^verbatim>\<open>["a", ""]\<close>, \<^verbatim>\<open>"".split(";")\<close> is \<^verbatim>\<open>[""]\<close>).
  \<open>split_from\<close> scans the text and keeps the piece read so far, reversed.
\<close>

fun split_from :: "16 word \<Rightarrow> jsstring \<Rightarrow> jsstring \<Rightarrow> jsstring list" where
  "split_from d piece [] = [rev piece]"
| "split_from d piece (c # cs) =
     (if c = d then rev piece # split_from d [] cs else split_from d (c # piece) cs)"

definition js_split :: "jsstring \<Rightarrow> 16 word \<Rightarrow> jsstring list" where
  "js_split s d = split_from d [] s"

text \<open>
  \<^verbatim>\<open>pieces.join(d)\<close>, the inverse of \<^verbatim>\<open>split\<close>: used only to say what the pieces
  of a text are.
\<close>

fun js_join :: "jsstring list \<Rightarrow> 16 word \<Rightarrow> jsstring" where
  "js_join [] d = []"
| "js_join [p] d = p"
| "js_join (p # q # ps) d = p @ d # js_join (q # ps) d"

definition endsWith :: "jsstring \<Rightarrow> jsstring \<Rightarrow> bool" where
  "endsWith s sfx \<longleftrightarrow> length sfx \<le> length s \<and> drop (length s - length sfx) s = sfx"

definition array_includes :: "'a list \<Rightarrow> 'a \<Rightarrow> bool" where
  "array_includes xs x \<longleftrightarrow> x \<in> set xs"

section \<open>The environment: file system, database, connection pool\<close>

datatype error =
    DirectoryReadError
  | FileReadError
  | StatementExecutionError
  | DuplicateEntryError
  | UndefinedTableError
  | ConnectionError

text \<open>
  The calls of \<^verbatim>\<open>query\<close> in \<^verbatim>\<open>migrate.js\<close>: one constructor for each literal of the
  source (the value of the parameter \<^verbatim>\<open>$1\<close> is the constructor's argument), and \<open>Script\<close>
  for the call in the loop of \<^verbatim>\<open>runMigration\<close>, whose text is a statement taken from a
  migration file. \<open>sql_text\<close> is the text that the call sends.
\<close>

datatype statement =
    BEGIN
  | COMMIT
  | ROLLBACK
  | CREATE_TABLE_IF_NOT_EXISTS_migrations
  | SELECT_filename_FROM_migrations
  | SELECT_1_FROM_migrations_WHERE_filename jsstring
  | INSERT_INTO_migrations jsstring
  | Script jsstring

fun sql_text :: "statement \<Rightarrow> jsstring" where
  "sql_text BEGIN = js ''BEGIN''"
| "sql_text COMMIT = js ''COMMIT''"
| "sql_text ROLLBACK = js ''ROLLBACK''"
| "sql_text CREATE_TABLE_IF_NOT_EXISTS_migrations =
     js (''\<newline>        CREATE TABLE IF NOT EXISTS maes.migrations ('' @
         ''\<newline>          id SERIAL PRIMARY KEY,'' @
         ''\<newline>          filename VARCHAR(255) UNIQUE NOT NULL,'' @
         ''\<newline>          applied_at TIMESTAMP WITH TIME ZONE DEFAULT CURRENT_TIMESTAMP'' @
         ''\<newline>        );'' @
         ''\<newline>      '')"
| "sql_text SELECT_filename_FROM_migrations =
     js ''SELECT filename FROM maes.migrations ORDER BY filename''"
| "sql_text (SELECT_1_FROM_migrations_WHERE_filename f) =
     js ''SELECT 1 FROM maes.migrations WHERE filename = $1''"
| "sql_text (INSERT_INTO_migrations f) =
     js ''INSERT INTO maes.migrations (filename) VALUES ($1)''"
| "sql_text (Script t) = t"

text \<open>
  The database holds the table \<^verbatim>\<open>maes.migrations\<close> (the filename column of its rows in
  insertion order, or \<open>None\<close> while the table does not exist) and the user's tables,
  of an arbitrary type \<open>'u\<close>.

  Every connection is a session of its own. \<^verbatim>\<open>BEGIN\<close> opens a transaction on the
  session (a working copy of the committed data); statements of a session with an open
  transaction act on its working copy, statements of a session without one act on the
  committed data at once (autocommit); \<^verbatim>\<open>COMMIT\<close> publishes the working copy,
  \<^verbatim>\<open>ROLLBACK\<close> drops it. On a session without a transaction \<^verbatim>\<open>COMMIT\<close> and
  \<^verbatim>\<open>ROLLBACK\<close> change nothing, and a second \<^verbatim>\<open>BEGIN\<close> keeps the open transaction.
\<close>

type_synonym conn = nat

type_synonym row = jsstring

record 'u store =
  migrations :: "jsstring list option"
  tables :: 'u

record 'u database =
  committed :: "'u store"
  sessions :: "conn \<Rightarrow> 'u store option"

text \<open>
  A statement of a migration file other than the literals is SQL that the model does not
  read. It acts through the parameter \<open>X\<close>, the semantics of the SQL executor: from the
  text, the committed data and the transaction of the session (\<open>None\<close> when none is
  open), \<open>X\<close> fails or gives both anew. So a statement of a file can change the user's
  tables and the ledger table, and can open, commit and roll back a transaction.
\<close>

type_synonym 'u executor =
  "jsstring \<Rightarrow> 'u store \<times> 'u store option \<Rightarrow> error + 'u store \<times> 'u store option"

definition session_view :: "'u database \<Rightarrow> conn \<Rightarrow> 'u store" where
  "session_view d c = (case sessions d c of None \<Rightarrow> committed d | Some t \<Rightarrow> t)"

definition session_update :: "'u database \<Rightarrow> conn \<Rightarrow> 'u store \<Rightarrow> 'u database" where
  "session_update d c s =
     (case sessions d c of
        None \<Rightarrow> d\<lparr>committed := s\<rparr>
      | Some t \<Rightarrow> d\<lparr>sessions := (sessions d)(c := Some s)\<rparr>)"

definition on_session ::
  "'u database \<Rightarrow> conn \<Rightarrow> ('u store \<Rightarrow> error + row list \<times> 'u store) \<Rightarrow>
   error + row list \<times> 'u database" where
  "on_session d c f =
     (case f (session_view d c) of
        Inl e \<Rightarrow> Inl e
      | Inr (rows, s) \<Rightarrow> Inr (rows, session_update d c s))"

text \<open>
  What a statement does on the connection \<open>c\<close>. A result row is represented by the value
  of its only column. The table has \<^verbatim>\<open>filename VARCHAR(255) UNIQUE NOT NULL\<close>: an insert
  of a filename already recorded fails. A text of a file with \<^verbatim>\<open>$1\<close> in it, as in the
  two literals, comes without a value for it and fails.
\<close>

fun perform ::
  "'u executor \<Rightarrow> conn \<Rightarrow> statement \<Rightarrow> 'u database \<Rightarrow> error + row list \<times> 'u database" where
  "perform X c BEGIN d =
     Inr ([], case sessions d c of
                None \<Rightarrow> d\<lparr>sessions := (sessions d)(c := Some (committed d))\<rparr>
              | Some t \<Rightarrow> d)"
| "perform X c COMMIT d =
     Inr ([], case sessions d c of
                None \<Rightarrow> d
              | Some t \<Rightarrow> d\<lparr>committed := t, sessions := (sessions d)(c := None)\<rparr>)"
| "perform X c ROLLBACK d = Inr ([], d\<lparr>sessions := (sessions d)(c := None)\<rparr>)"
| "perform X c CREATE_TABLE_IF_NOT_EXISTS_migrations d =
     on_session d c (\<lambda>s.
       Inr ([], s\<lparr>migrations := Some (case migrations s of None \<Rightarrow> [] | Some r \<Rightarrow> r)\<rparr>))"
| "perform X c SELECT_filename_FROM_migrations d =
     on_session d c (\<lambda>s.
       case migrations s of
         None \<Rightarrow> Inl UndefinedTableError
       | Some r \<Rightarrow> Inr (sort r, s))"
| "perform X c (SELECT_1_FROM_migrations_WHERE_filename f) d =
     on_session d c (\<lambda>s.
       case migrations s of
         None \<Rightarrow> Inl UndefinedTableError
       | Some r \<Rightarrow> Inr (map (\<lambda>x. js ''1'') (filter (\<lambda>x. x = f) r), s))"
| "perform X c (INSERT_INTO_migrations f) d =
     on_session d c (\<lambda>s.
       case migrations s of
         None \<Rightarrow> Inl UndefinedTableError
       | Some r \<Rightarrow>
           if f \<in> set r then Inl DuplicateEntryError
           else Inr ([], s\<lparr>migrations := Some (r @ [f])\<rparr>))"
| "perform X c (Script t) d =
     (if t = sql_text (SELECT_1_FROM_migrations_WHERE_filename []) \<or>
         t = sql_text (INSERT_INTO_migrations [])
      then Inl StatementExecutionError
      else
        (case X t (committed d, sessions d c) of
           Inl e \<Rightarrow> Inl e
         | Inr (s, tx) \<Rightarrow> Inr ([], d\<lparr>committed := s, sessions := (sessions d)(c := tx)\<rparr>)))"

text \<open>
  The database is given the text of a call and nothing else, so a statement of a migration
  file with the text of one of the literals is that statement: \<^verbatim>\<open>COMMIT\<close> in a file
  commits the transaction that \<^verbatim>\<open>runMigration\<close> began.
\<close>

definition as_read :: "jsstring \<Rightarrow> statement" where
  "as_read t =
     (if t = sql_text BEGIN then BEGIN
      else if t = sql_text COMMIT then COMMIT
      else if t = sql_text ROLLBACK then ROLLBACK
      else if t = sql_text CREATE_TABLE_IF_NOT_EXISTS_migrations
        then CREATE_TABLE_IF_NOT_EXISTS_migrations
      else if t = sql_text SELECT_filename_FROM_migrations
        then SELECT_filename_FROM_migrations
      else Script t)"

fun execute ::
  "'u executor \<Rightarrow> conn \<Rightarrow> statement \<Rightarrow> 'u database \<Rightarrow> error + row list \<times> 'u database" where
  "execute X c (Script t) d = perform X c (as_read t) d"
| "execute X c s d = perform X c s d"

text \<open>
  The messages \<^verbatim>\<open>migrate.js\<close> gives to its logger, one constructor for each call.
\<close>

datatype event =
    TableEnsured
  | CreateTableFailed error
  | GetAppliedFailed error
  | ReadDirFailed error
  | Running jsstring
  | Completed jsstring
  | MigrationFailed jsstring error
  | NoPending
  | FoundPending "jsstring list"
  | AllCompleted
  | ProcessFailed error
  | CheckFailed jsstring error
  | StatusFailed error

text \<open>
  The world of a run: what \<^verbatim>\<open>fs.readdir\<close> gives for the migrations directory (an
  error, or the names in it), the contents of its files, the database, the number of
  queries given to the pool so far, the statements that reached the database with the
  connection each ran on, and the logger's output.
\<close>

record 'u world =
  directory :: "error + jsstring list"
  files :: "jsstring \<Rightarrow> jsstring option"
  db :: "'u database"
  issued :: nat
  trace :: "(conn \<times> statement) list"
  logged :: "event list"

section \<open>database.js\<close>

text \<open>
  \<^verbatim>\<open>query\<close> is \<^verbatim>\<open>pool.query(text, params)\<close>: the pool checks a client out for this one
  call and releases it afterwards. Which client serves the \<open>k\<close>-th call is the pool's
  choice, the parameter \<open>P\<close>: \<open>P k\<close> is the connection, or the error of a checkout that
  fails (\<^verbatim>\<open>connectionTimeoutMillis\<close>). An error is thrown again after it is logged.
\<close>

definition query ::
  "'u executor \<Rightarrow> (nat \<Rightarrow> error + conn) \<Rightarrow> statement \<Rightarrow> 'u world \<Rightarrow>
   (error + row list) \<times> 'u world" where
  "query X P stmt w =
     (case P (issued w) of
        Inl e \<Rightarrow> (Inl e, w\<lparr>issued := Suc (issued w)\<rparr>)
      | Inr c \<Rightarrow>
          (case execute X c stmt (db w) of
             Inl e \<Rightarrow> (Inl e, w\<lparr>issued := Suc (issued w), trace := trace w @ [(c, stmt)]\<rparr>)
           | Inr (rows, d) \<Rightarrow>
               (Inr rows,
                w\<lparr>db := d, issued := Suc (issued w), trace := trace w @ [(c, stmt)]\<rparr>)))"

definition getRow ::
  "'u executor \<Rightarrow> (nat \<Rightarrow> error + conn) \<Rightarrow> statement \<Rightarrow> 'u world \<Rightarrow>
   (error + row option) \<times> 'u world" where
  "getRow X P stmt w =
     (case query X P stmt w of
        (Inl e, w1) \<Rightarrow> (Inl e, w1)
      | (Inr rows, w1) \<Rightarrow> (Inr (case rows of [] \<Rightarrow> None | r # rs \<Rightarrow> Some r), w1))"

definition getRows ::
  "'u executor \<Rightarrow> (nat \<Rightarrow> error + conn) \<Rightarrow> statement \<Rightarrow> 'u world \<Rightarrow>
   (error + row list) \<times> 'u world" where
  "getRows X P stmt w =
     (case query X P stmt w of
        (Inl e, w1) \<Rightarrow> (Inl e, w1)
      | (Inr rows, w1) \<Rightarrow> (Inr rows, w1))"

section \<open>migrate.js: MigrationManager\<close>

definition createMigrationsTable ::
  "'u executor \<Rightarrow> (nat \<Rightarrow> error + conn) \<Rightarrow> 'u world \<Rightarrow>
   (error + unit) \<times> 'u world" where
  "createMigrationsTable X P w =
     (case query X P CREATE_TABLE_IF_NOT_EXISTS_migrations w of
        (Inr rows, w1) \<Rightarrow> (Inr (), w1\<lparr>logged := logged w1 @ [TableEnsured]\<rparr>)
      | (Inl e, w1) \<Rightarrow> (Inl e, w1\<lparr>logged := logged w1 @ [CreateTableFailed e]\<rparr>))"

definition initialize ::
  "'u executor \<Rightarrow> (nat \<Rightarrow> error + conn) \<Rightarrow> 'u world \<Rightarrow>
   (error + unit) \<times> 'u world" where
  "initialize X P w = createMigrationsTable X P w"

definition getAppliedMigrations ::
  "'u executor \<Rightarrow> (nat \<Rightarrow> error + conn) \<Rightarrow> 'u world \<Rightarrow>
   (error + jsstring list) \<times> 'u world" where
  "getAppliedMigrations X P w =
     (case getRows X P SELECT_filename_FROM_migrations w of
        (Inr result, w1) \<Rightarrow> (Inr result, w1)
      | (Inl e, w1) \<Rightarrow> (Inr [], w1\<lparr>logged := logged w1 @ [GetAppliedFailed e]\<rparr>))"

definition getMigrationFiles :: "'u world \<Rightarrow> (error + jsstring list) \<times> 'u world" where
  "getMigrationFiles w =
     (case directory w of
        Inr names \<Rightarrow> (Inr (sort (filter (\<lambda>file. endsWith file (js ''.sql'')) names)), w)
      | Inl e \<Rightarrow> (Inr [], w\<lparr>logged := logged w @ [ReadDirFailed e]\<rparr>))"

definition statements_of :: "jsstring \<Rightarrow> jsstring list" where
  "statements_of migrationSQL =
     filter (\<lambda>stmt. length stmt > 0) (map trim (js_split migrationSQL (of_char CHR '';'')))"

text \<open>The loop over the statements, with its test \<^verbatim>\<open>if (statement.trim())\<close>.\<close>

fun run_statements ::
  "'u executor \<Rightarrow> (nat \<Rightarrow> error + conn) \<Rightarrow> jsstring list \<Rightarrow> 'u world \<Rightarrow>
   (error + unit) \<times> 'u world" where
  "run_statements X P [] w = (Inr (), w)"
| "run_statements X P (stmt # rest) w =
     (if trim stmt \<noteq> [] then
        (case query X P (Script stmt) w of
           (Inl e, w1) \<Rightarrow> (Inl e, w1)
         | (Inr rows, w1) \<Rightarrow> run_statements X P rest w1)
      else run_statements X P rest w)"

text \<open>The inner \<^verbatim>\<open>try\<close> block of \<^verbatim>\<open>runMigration\<close>: statements, ledger insert, commit.\<close>

definition runMigration_apply ::
  "'u executor \<Rightarrow> (nat \<Rightarrow> error + conn) \<Rightarrow> jsstring \<Rightarrow> jsstring \<Rightarrow>
   'u world \<Rightarrow> (error + unit) \<times> 'u world" where
  "runMigration_apply X P filename migrationSQL w =
     (case run_statements X P (statements_of migrationSQL) w of
        (Inl e, w1) \<Rightarrow> (Inl e, w1)
      | (Inr u, w1) \<Rightarrow>
          (case query X P (INSERT_INTO_migrations filename) w1 of
             (Inl e, w2) \<Rightarrow> (Inl e, w2)
           | (Inr rows, w2) \<Rightarrow>
               (case query X P COMMIT w2 of
                  (Inl e, w3) \<Rightarrow> (Inl e, w3)
                | (Inr rows', w3) \<Rightarrow>
                    (Inr (), w3\<lparr>logged := logged w3 @ [Completed filename]\<rparr>))))"

text \<open>The inner \<^verbatim>\<open>try\<close> with its \<^verbatim>\<open>catch\<close>: roll back, then throw the error again.\<close>

definition runMigration_transaction ::
  "'u executor \<Rightarrow> (nat \<Rightarrow> error + conn) \<Rightarrow> jsstring \<Rightarrow> jsstring \<Rightarrow>
   'u world \<Rightarrow> (error + unit) \<times> 'u world" where
  "runMigration_transaction X P filename migrationSQL w =
     (case runMigration_apply X P filename migrationSQL w of
        (Inr u, w1) \<Rightarrow> (Inr u, w1)
      | (Inl e, w1) \<Rightarrow>
          (case query X P ROLLBACK w1 of
             (Inl e', w2) \<Rightarrow> (Inl e', w2)
           | (Inr rows, w2) \<Rightarrow> (Inl e, w2)))"

text \<open>The outer \<^verbatim>\<open>try\<close> block: read the file, begin, run the transaction.\<close>

definition runMigration_try ::
  "'u executor \<Rightarrow> (nat \<Rightarrow> error + conn) \<Rightarrow> jsstring \<Rightarrow> 'u world \<Rightarrow>
   (error + unit) \<times> 'u world" where
  "runMigration_try X P filename w =
     (let w0 = w\<lparr>logged := logged w @ [Running filename]\<rparr> in
      case files w0 filename of
        None \<Rightarrow> (Inl FileReadError, w0)
      | Some migrationSQL \<Rightarrow>
          (case query X P BEGIN w0 of
             (Inl e, w1) \<Rightarrow> (Inl e, w1)
           | (Inr rows, w1) \<Rightarrow> runMigration_transaction X P filename migrationSQL w1))"

definition runMigration ::
  "'u executor \<Rightarrow> (nat \<Rightarrow> error + conn) \<Rightarrow> jsstring \<Rightarrow> 'u world \<Rightarrow>
   (error + unit) \<times> 'u world" where
  "runMigration X P filename w =
     (case runMigration_try X P filename w of
        (Inr u, w1) \<Rightarrow> (Inr u, w1)
      | (Inl e, w1) \<Rightarrow> (Inl e, w1\<lparr>logged := logged w1 @ [MigrationFailed filename e]\<rparr>))"

text \<open>The loop of \<^verbatim>\<open>runPendingMigrations\<close>: the first error leaves the loop.\<close>

fun run_each ::
  "'u executor \<Rightarrow> (nat \<Rightarrow> error + conn) \<Rightarrow> jsstring list \<Rightarrow> 'u world \<Rightarrow>
   (error + unit) \<times> 'u world" where
  "run_each X P [] w = (Inr (), w)"
| "run_each X P (migration # rest) w =
     (case runMigration X P migration w of
        (Inl e, w1) \<Rightarrow> (Inl e, w1)
      | (Inr u, w1) \<Rightarrow> run_each X P rest w1)"

definition runPendingMigrations_try ::
  "'u executor \<Rightarrow> (nat \<Rightarrow> error + conn) \<Rightarrow> 'u world \<Rightarrow>
   (error + unit) \<times> 'u world" where
  "runPendingMigrations_try X P w =
     (case initialize X P w of
        (Inl e, w1) \<Rightarrow> (Inl e, w1)
      | (Inr u, w1) \<Rightarrow>
          (case getAppliedMigrations X P w1 of
             (Inl e, w2) \<Rightarrow> (Inl e, w2)
           | (Inr appliedMigrations, w2) \<Rightarrow>
               (case getMigrationFiles w2 of
                  (Inl e, w3) \<Rightarrow> (Inl e, w3)
                | (Inr migrationFiles, w3) \<Rightarrow>
                    (let pendingMigrations =
                           filter (\<lambda>file. \<not> array_includes appliedMigrations file) migrationFiles
                     in if length pendingMigrations = 0
                        then (Inr (), w3\<lparr>logged := logged w3 @ [NoPending]\<rparr>)
                        else
                          (case run_each X P pendingMigrations
                                  (w3\<lparr>logged := logged w3 @ [FoundPending pendingMigrations]\<rparr>) of
                             (Inl e, w4) \<Rightarrow> (Inl e, w4)
                           | (Inr u', w4) \<Rightarrow>
                               (Inr (), w4\<lparr>logged := logged w4 @ [AllCompleted]\<rparr>))))))"

definition runPendingMigrations ::
  "'u executor \<Rightarrow> (nat \<Rightarrow> error + conn) \<Rightarrow> 'u world \<Rightarrow>
   (error + unit) \<times> 'u world" where
  "runPendingMigrations X P w =
     (case runPendingMigrations_try X P w of
        (Inr u, w1) \<Rightarrow> (Inr u, w1)
      | (Inl e, w1) \<Rightarrow> (Inl e, w1\<lparr>logged := logged w1 @ [ProcessFailed e]\<rparr>))"

definition isMigrationApplied ::
  "'u executor \<Rightarrow> (nat \<Rightarrow> error + conn) \<Rightarrow> jsstring \<Rightarrow> 'u world \<Rightarrow>
   (error + bool) \<times> 'u world" where
  "isMigrationApplied X P filename w =
     (case getRow X P (SELECT_1_FROM_migrations_WHERE_filename filename) w of
        (Inr result, w1) \<Rightarrow> (Inr (result \<noteq> None), w1)
      | (Inl e, w1) \<Rightarrow> (Inr False, w1\<lparr>logged := logged w1 @ [CheckFailed filename e]\<rparr>))"

record status =
  total :: nat
  applied :: nat
  pending :: nat
  appliedMigrations :: "jsstring list"
  pendingMigrations :: "jsstring list"

definition getStatus_try ::
  "'u executor \<Rightarrow> (nat \<Rightarrow> error + conn) \<Rightarrow> 'u world \<Rightarrow>
   (error + status) \<times> 'u world" where
  "getStatus_try X P w =
     (case getAppliedMigrations X P w of
        (Inl e, w1) \<Rightarrow> (Inl e, w1)
      | (Inr appliedList, w1) \<Rightarrow>
          (case getMigrationFiles w1 of
             (Inl e, w2) \<Rightarrow> (Inl e, w2)
           | (Inr migrationFiles, w2) \<Rightarrow>
               (let pendingList =
                      filter (\<lambda>file. \<not> array_includes appliedList file) migrationFiles
                in (Inr \<lparr>total = length migrationFiles,
                         applied = length appliedList,
                         pending = length pendingList,
                         appliedMigrations = appliedList,
                         pendingMigrations = pendingList\<rparr>, w2))))"

definition getStatus ::
  "'u executor \<Rightarrow> (nat \<Rightarrow> error + conn) \<Rightarrow> 'u world \<Rightarrow>
   (error + status) \<times> 'u world" where
  "getStatus X P w =
     (case getStatus_try X P w of
        (Inr s, w1) \<Rightarrow> (Inr s, w1)
      | (Inl e, w1) \<Rightarrow> (Inl e, w1\<lparr>logged := logged w1 @ [StatusFailed e]\<rparr>))"

section \<open>Observations\<close>

text \<open>
  The definitions of this section are not code of the repository: they say what is
  observed of a world and of a run (the ledger, the scripts the log reports, the statements
  in the trace), so that the theorems can speak about it.
\<close>

subsection \<open>The pool\<close>

text \<open>
  A pool that serves every query on the connection \<open>c\<close>.
\<close>

definition pinned :: "(nat \<Rightarrow> error + conn) \<Rightarrow> conn \<Rightarrow> bool" where
  "pinned P c \<longleftrightarrow> (\<forall>k. P k = Inr c)"

subsection \<open>What is observed of a world\<close>

text \<open>
  The ledger is the committed content of \<^verbatim>\<open>maes.migrations\<close>; a table that does not exist
  has no entries. \<open>ensured_store\<close> is the committed store once the table exists.
\<close>

definition ledger :: "'u world \<Rightarrow> jsstring list" where
  "ledger w = (case migrations (committed (db w)) of None \<Rightarrow> [] | Some r \<Rightarrow> r)"

definition ensured_store :: "'u world \<Rightarrow> 'u store" where
  "ensured_store w = (committed (db w))\<lparr>migrations := Some (ledger w)\<rparr>"

text \<open>
  What \<^verbatim>\<open>getMigrationFiles\<close> returns in a world, the scripts of it that the ledger does not
  hold, the same selection on a list of names before it is sorted, and the statements of a
  script of the directory.
\<close>

definition discovered :: "'u world \<Rightarrow> jsstring list" where
  "discovered w =
     (case directory w of
        Inl e \<Rightarrow> []
      | Inr names \<Rightarrow> sort (filter (\<lambda>file. endsWith file (js ''.sql'')) names))"

definition pending_of :: "'u world \<Rightarrow> jsstring list" where
  "pending_of w = filter (\<lambda>f. f \<notin> set (ledger w)) (discovered w)"



subsection \<open>What is observed of a run\<close>

text \<open>
  What a run added to the log and to the trace, the scripts the log reports as started
  ("Running migration"), completed ("Migration completed successfully") and failed
  ("Migration failed", with the error), and the texts of the trace that the loop of
  \<^verbatim>\<open>runMigration\<close> sent.
\<close>

definition new_trace :: "'u world \<Rightarrow> 'u world \<Rightarrow> (conn \<times> statement) list" where
  "new_trace w w' = drop (length (trace w)) (trace w')"

definition new_events :: "'u world \<Rightarrow> 'u world \<Rightarrow> event list" where
  "new_events w w' = drop (length (logged w)) (logged w')"

definition started :: "event list \<Rightarrow> jsstring list" where
  "started es = concat (map (\<lambda>e. case e of Running f \<Rightarrow> [f] | _ \<Rightarrow> []) es)"

definition completed :: "event list \<Rightarrow> jsstring list" where
  "completed es = concat (map (\<lambda>e. case e of Completed f \<Rightarrow> [f] | _ \<Rightarrow> []) es)"

definition failed :: "event list \<Rightarrow> (jsstring \<times> error) list" where
  "failed es = concat (map (\<lambda>e. case e of MigrationFailed f x \<Rightarrow> [(f, x)] | _ \<Rightarrow> []) es)"

definition script_texts :: "(conn \<times> statement) list \<Rightarrow> jsstring list" where
  "script_texts tr = concat (map (\<lambda>(c, s). case s of Script x \<Rightarrow> [x] | _ \<Rightarrow> []) tr)"

text \<open>
  The log entries of the two reads at the start of \<^verbatim>\<open>runPendingMigrations\<close>, and the world
  after them when both are served on the connection \<open>c\<close>: the ledger table is ensured and
  both lists are read.
\<close>

definition read_events :: "'u world \<Rightarrow> event list" where
  "read_events w =
     TableEnsured # (case directory w of Inl e \<Rightarrow> [ReadDirFailed e] | Inr names \<Rightarrow> [])"

definition prepared :: "conn \<Rightarrow> 'u world \<Rightarrow> 'u world" where
  "prepared c w =
     w\<lparr>db := (db w)\<lparr>committed := ensured_store w\<rparr>,
       issued := issued w + 2,
       trace := trace w @ [(c, CREATE_TABLE_IF_NOT_EXISTS_migrations),
                           (c, SELECT_filename_FROM_migrations)],
       logged := logged w @ TableEnsured #
                   (case directory w of Inl e \<Rightarrow> [ReadDirFailed e] | Inr names \<Rightarrow> [])\<rparr>"

section \<open>Example worlds\<close>

text \<open>
  The scenarios of the specification: a directory with \<^verbatim>\<open>001_init.sql\<close>,
  \<^verbatim>\<open>002_add_col.sql\<close> and a file that is no script, listed out of order, and one with a
  third script, and one whose script has a \<^verbatim>\<open>COMMIT\<close> of its own; an executor that rejects the statement \<^verbatim>\<open>BAD\<close> and otherwise appends
  the statement to the user's tables of the session's transaction, or of the committed data
  when the session has none (so the tables are the list of the statements applied).
\<close>

definition demo_exec :: "jsstring list executor" where
  "demo_exec t v =
     (if t = js ''BAD'' then Inl StatementExecutionError
      else case snd v of
             None \<Rightarrow> Inr ((fst v)\<lparr>tables := tables (fst v) @ [t]\<rparr>, None)
           | Some s \<Rightarrow> Inr (fst v, Some (s\<lparr>tables := tables s @ [t]\<rparr>)))"

text \<open>
  Pools: one that serves every query on connection 0; one of ten connections that serves
  the queries in turn; one that serves the first queries on the connections of a list, as
  when other requests of the process take and return clients of the shared pool in
  between, and the later ones on connection 0; and one with a single connection whose
  \<open>n\<close>-th checkout times out.
\<close>

definition one_connection :: "nat \<Rightarrow> error + conn" where
  "one_connection k = Inr 0"

definition round_robin :: "nat \<Rightarrow> error + conn" where
  "round_robin k = Inr (k mod 10)"

definition served_on :: "conn list \<Rightarrow> nat \<Rightarrow> error + conn" where
  "served_on cs k = Inr (if k < length cs then cs ! k else 0)"

definition timeout_at :: "nat \<Rightarrow> nat \<Rightarrow> error + conn" where
  "timeout_at n k = (if k = n then Inl ConnectionError else Inr 0)"

definition good_files :: "jsstring \<Rightarrow> jsstring option" where
  "good_files =
     [js ''001_init.sql'' \<mapsto> js ''CREATE TABLE t(x int); INSERT INTO t VALUES (1);'',
      js ''002_add_col.sql'' \<mapsto> js ''ALTER TABLE t ADD y int;'']"

definition bad_files :: "jsstring \<Rightarrow> jsstring option" where
  "bad_files =
     [js ''001_init.sql'' \<mapsto> js ''CREATE TABLE t(x int); INSERT INTO t VALUES (1);'',
      js ''002_add_col.sql'' \<mapsto> js ''ALTER TABLE t ADD y int; BAD'']"

definition three_files :: "jsstring \<Rightarrow> jsstring option" where
  "three_files =
     [js ''001_init.sql'' \<mapsto> js ''CREATE TABLE t(x int); INSERT INTO t VALUES (1);'',
      js ''002_add_col.sql'' \<mapsto> js ''ALTER TABLE t ADD y int; BAD'',
      js ''003_index.sql'' \<mapsto> js ''CREATE INDEX i ON t(x);'']"

definition listing :: "jsstring list" where
  "listing = [js ''002_add_col.sql'', js ''README.md'', js ''001_init.sql'']"

definition three_listing :: "jsstring list" where
  "three_listing = [js ''003_index.sql'', js ''001_init.sql'', js ''002_add_col.sql'']"

definition empty_db :: "jsstring list database" where
  "empty_db = \<lparr>committed = \<lparr>migrations = None, tables = []\<rparr>, sessions = (\<lambda>c. None)\<rparr>"

definition db_after_001 :: "jsstring list database" where
  "db_after_001 =
     \<lparr>committed = \<lparr>migrations = Some [js ''001_init.sql''],
                   tables = [js ''CREATE TABLE t(x int)'', js ''INSERT INTO t VALUES (1)'']\<rparr>,
      sessions = (\<lambda>c. None)\<rparr>"

definition fresh_world :: "jsstring list world" where
  "fresh_world = \<lparr>directory = Inr listing, files = good_files, db = empty_db,
                  issued = 0, trace = [], logged = []\<rparr>"

definition half_world :: "jsstring list world" where
  "half_world = \<lparr>directory = Inr listing, files = good_files, db = db_after_001,
                 issued = 0, trace = [], logged = []\<rparr>"

definition half_broken_world :: "jsstring list world" where
  "half_broken_world = \<lparr>directory = Inr listing, files = bad_files, db = db_after_001,
                        issued = 0, trace = [], logged = []\<rparr>"

definition three_world :: "jsstring list world" where
  "three_world = \<lparr>directory = Inr three_listing, files = three_files, db = empty_db,
                  issued = 0, trace = [], logged = []\<rparr>"

definition unreadable_world :: "jsstring list world" where
  "unreadable_world = \<lparr>directory = Inl DirectoryReadError, files = good_files, db = empty_db,
                       issued = 0, trace = [], logged = []\<rparr>"

definition ensured_world :: "jsstring list world" where
  "ensured_world =
     \<lparr>directory = Inr listing, files = good_files,
      db = \<lparr>committed = \<lparr>migrations = Some [], tables = []\<rparr>, sessions = (\<lambda>c. None)\<rparr>,
      issued = 0, trace = [], logged = []\<rparr>"

definition committing_world :: "jsstring list world" where
  "committing_world =
     \<lparr>directory = Inr [js ''001_init.sql''],
      files = [js ''001_init.sql'' \<mapsto> js ''CREATE TABLE a(x int); COMMIT; BAD''],
      db = \<lparr>committed = \<lparr>migrations = Some [], tables = []\<rparr>, sessions = (\<lambda>c. None)\<rparr>,
      issued = 0, trace = [], logged = []\<rparr>"

section \<open>Lemmas\<close>

lemma last_dropWhile_nonempty: "dropWhile P xs \<noteq> [] \<Longrightarrow> last (dropWhile P xs) = last xs"
  by (induction xs) (auto split: if_splits)

lemma dropWhile_rev_kept:
  assumes "dropWhile P (rev (dropWhile P s)) = b"
  shows "dropWhile P (rev b) = rev b"
proof (cases "b = []")
  case True
  then show ?thesis by simp
next
  case False
  let ?a = "dropWhile P s"
  from False assms have ne: "dropWhile P (rev ?a) \<noteq> []" by simp
  have a_ne: "?a \<noteq> []"
  proof
    assume e: "?a = []"
    show False using ne unfolding e by simp
  qed
  have "last b = last (rev ?a)"
    using last_dropWhile_nonempty [OF ne] assms by simp
  also have "\<dots> = hd ?a" using a_ne by (simp add: last_rev)
  finally have "last b = hd ?a" .
  moreover have "\<not> P (hd ?a)" using a_ne by (rule hd_dropWhile)
  ultimately have "\<not> P (hd (rev b))" using False by (simp add: hd_rev)
  moreover from False obtain x xs where "rev b = x # xs" by (cases "rev b") auto
  ultimately show ?thesis by simp
qed

lemma trim_idem: "trim (trim s) = trim s"
proof -
  let ?b = "dropWhile isWhiteSpace (rev (dropWhile isWhiteSpace s))"
  have "dropWhile isWhiteSpace (rev ?b) = rev ?b" by (rule dropWhile_rev_kept) simp
  then show ?thesis by (simp add: trim_def)
qed

lemma trim_spec:
  "\<exists>a b. s = a @ trim s @ b \<and> (\<forall>c \<in> set a. isWhiteSpace c) \<and> (\<forall>c \<in> set b. isWhiteSpace c)"
proof -
  let ?P = isWhiteSpace
  let ?q = "dropWhile ?P s"
  let ?a = "takeWhile ?P s"
  let ?b = "rev (takeWhile ?P (rev ?q))"
  have "rev (dropWhile ?P (rev ?q)) @ rev (takeWhile ?P (rev ?q)) =
      rev (takeWhile ?P (rev ?q) @ dropWhile ?P (rev ?q))" by (simp only: rev_append)
  also have "\<dots> = rev (rev ?q)" by (simp only: takeWhile_dropWhile_id)
  finally have q: "?q = trim s @ ?b" by (simp add: trim_def)
  have "s = ?a @ ?q" by simp
  with q have "s = ?a @ trim s @ ?b" by simp
  moreover have "\<forall>c \<in> set ?a. ?P c" by (auto dest: set_takeWhileD)
  moreover have "\<forall>c \<in> set ?b. ?P c" by (auto dest: set_takeWhileD)
  ultimately show ?thesis by blast
qed

lemma trim_ends:
  assumes "trim s \<noteq> []"
  shows "\<not> isWhiteSpace (hd (trim s)) \<and> \<not> isWhiteSpace (last (trim s))"
proof -
  let ?P = isWhiteSpace
  let ?q = "dropWhile ?P s"
  let ?b = "dropWhile ?P (rev ?q)"
  have t: "trim s = rev ?b" by (simp add: trim_def)
  from assms t have bne: "?b \<noteq> []" by simp
  then have "\<not> ?P (hd ?b)" by (rule hd_dropWhile)
  then have l: "\<not> ?P (last (trim s))" using bne t by (simp add: last_rev)
  have qne: "?q \<noteq> []"
  proof
    assume e: "?q = []"
    show False using bne unfolding e by simp
  qed
  have "last ?b = last (rev ?q)" using bne by (rule last_dropWhile_nonempty)
  also have "\<dots> = hd ?q" using qne by (simp add: last_rev)
  finally have "hd (trim s) = hd ?q" using bne t by (simp add: hd_rev)
  moreover have "\<not> ?P (hd ?q)" using qne by (rule hd_dropWhile)
  ultimately show ?thesis using l by simp
qed

lemma statements_of_trimmed:
  "s \<in> set (statements_of sql) \<Longrightarrow> trim s = s \<and> s \<noteq> []"
  by (auto simp: statements_of_def trim_idem)

lemma split_from_nonempty: "split_from d piece cs \<noteq> []"
  by (induction cs arbitrary: piece) auto

lemma split_from_join: "js_join (split_from d piece cs) d = rev piece @ cs"
proof (induction cs arbitrary: piece)
  case Nil
  then show ?case by simp
next
  case (Cons c cs)
  show ?case
  proof (cases "c = d")
    case True
    obtain q qs where q: "split_from d [] cs = q # qs"
      using split_from_nonempty [of d "[]" cs] by (cases "split_from d [] cs") auto
    have "js_join (q # qs) d = cs" using Cons.IH [of "[]"] q by simp
    with True q show ?thesis by simp
  next
    case False
    then show ?thesis using Cons.IH [of "c # piece"] by simp
  qed
qed

lemma split_from_no_sep:
  "d \<notin> set piece \<Longrightarrow> \<forall>p \<in> set (split_from d piece cs). d \<notin> set p"
proof (induction cs arbitrary: piece)
  case Nil
  then show ?case by simp
next
  case (Cons c cs)
  show ?case
  proof (cases "c = d")
    case True
    have "\<forall>p \<in> set (split_from d [] cs). d \<notin> set p"
      using Cons.IH [of "[]"] by simp
    with True Cons.prems show ?thesis by simp
  next
    case False
    have "\<forall>p \<in> set (split_from d (c # piece) cs). d \<notin> set p"
      using Cons.IH [of "c # piece"] False Cons.prems by simp
    with False show ?thesis by simp
  qed
qed

lemma js_split_join: "js_join (js_split s d) d = s"
  by (simp add: js_split_def split_from_join)

lemma js_split_no_sep: "p \<in> set (js_split s d) \<Longrightarrow> d \<notin> set p"
  unfolding js_split_def using split_from_no_sep [of d "[]" s] by simp

lemma query_pinned:
  "pinned P c \<Longrightarrow> query X P stmt w =
     (case execute X c stmt (db w) of
        Inl e \<Rightarrow> (Inl e, w\<lparr>issued := Suc (issued w), trace := trace w @ [(c, stmt)]\<rparr>)
      | Inr (rows, d) \<Rightarrow>
          (Inr rows, w\<lparr>db := d, issued := Suc (issued w), trace := trace w @ [(c, stmt)]\<rparr>))"
  by (simp add: query_def pinned_def)

lemma statements_of_nonblank: "\<forall>s \<in> set (statements_of sql). trim s \<noteq> []"
  using statements_of_trimmed by auto

lemmas db_simps = on_session_def session_view_def session_update_def

lemma script_texts_append [simp]: "script_texts (a @ b) = script_texts a @ script_texts b"
  by (simp add: script_texts_def)

lemma script_texts_simps [simp]:
  "script_texts [] = []"
  "script_texts ((c, Script x) # tr) = x # script_texts tr"
  "script_texts ((c, BEGIN) # tr) = script_texts tr"
  "script_texts ((c, COMMIT) # tr) = script_texts tr"
  "script_texts ((c, ROLLBACK) # tr) = script_texts tr"
  "script_texts ((c, INSERT_INTO_migrations f) # tr) = script_texts tr"
  "script_texts ((c, CREATE_TABLE_IF_NOT_EXISTS_migrations) # tr) = script_texts tr"
  "script_texts ((c, SELECT_filename_FROM_migrations) # tr) = script_texts tr"
  "script_texts ((c, SELECT_1_FROM_migrations_WHERE_filename f) # tr) = script_texts tr"
  by (simp_all add: script_texts_def)

lemma getMigrationFiles_eq:
  "getMigrationFiles w =
     (Inr (discovered w),
      w\<lparr>logged := logged w @ (case directory w of Inl e \<Rightarrow> [ReadDirFailed e] | Inr names \<Rightarrow> [])\<rparr>)"
  by (simp add: getMigrationFiles_def discovered_def split: sum.splits)


lemma query_frame:
  assumes "query X P s w = (r, w')"
  shows "directory w' = directory w \<and> files w' = files w \<and> logged w' = logged w"
  using assms by (auto simp: query_def split: sum.splits prod.splits)

lemma query_trace:
  assumes "query X P s w = (r, w')"
  shows "\<exists>tr. trace w' = trace w @ tr \<and> (tr = [] \<or> (\<exists>c. tr = [(c, s)])) \<and>
           (\<forall>rows. r = Inr rows \<longrightarrow> (\<exists>c. tr = [(c, s)]))"
  using assms by (auto simp: query_def split: sum.splits prod.splits)

lemma query_trace_other:
  assumes "query X P s w = (r, w')" "\<forall>x. s \<noteq> Script x"
  shows "\<exists>tr. trace w' = trace w @ tr \<and> script_texts tr = []"
proof -
  from query_trace [OF assms(1)] obtain tr where
    tr: "trace w' = trace w @ tr" "tr = [] \<or> (\<exists>c. tr = [(c, s)])"
    by (elim exE conjE) (rule that)
  from tr(2) assms(2) have "script_texts tr = []"
    by (cases s) (auto simp: script_texts_def)
  with tr(1) show ?thesis by blast
qed

lemma run_statements_trace:
  "\<forall>s \<in> set stmts. trim s \<noteq> [] \<Longrightarrow> run_statements X P stmts w = (r, w') \<Longrightarrow>
     \<exists>tr k. trace w' = trace w @ tr \<and> script_texts tr = take k stmts \<and>
            (\<forall>v. r = Inr v \<longrightarrow> script_texts tr = stmts)"
proof (induction stmts arbitrary: w)
  case Nil
  then have "trace w' = trace w @ [] \<and> script_texts [] = take 0 [] \<and>
      (\<forall>v. r = Inr v \<longrightarrow> script_texts [] = [])" by simp
  then show ?case by blast
next
  case (Cons x xs)
  obtain r1 w1 where q: "query X P (Script x) w = (r1, w1)" by (cases "query X P (Script x) w")
  from query_trace [OF q] obtain tr1 where
    tr1: "trace w1 = trace w @ tr1" "tr1 = [] \<or> (\<exists>c. tr1 = [(c, Script x)])"
      "\<forall>rows. r1 = Inr rows \<longrightarrow> (\<exists>c. tr1 = [(c, Script x)])"
    by (elim exE conjE) (rule that)
  show ?case
  proof (cases r1)
    case (Inl e)
    with Cons.prems q have eq: "r = Inl e" "w' = w1" by auto
    from tr1(2) have "script_texts tr1 = take 0 (x # xs) \<or> script_texts tr1 = take 1 (x # xs)"
      by auto
    then have "\<exists>k. script_texts tr1 = take k (x # xs)" by blast
    with eq tr1(1) show ?thesis by auto
  next
    case (Inr rows)
    with Cons.prems q have rest: "run_statements X P xs w1 = (r, w')" by auto
    from Inr tr1(3) obtain c where c: "tr1 = [(c, Script x)]" by blast
    have nb: "\<forall>s \<in> set xs. trim s \<noteq> []" using Cons.prems(1) by simp
    from Cons.IH [OF nb rest] obtain tr2 k where
      ih: "trace w' = trace w1 @ tr2" "script_texts tr2 = take k xs"
        "\<forall>v. r = Inr v \<longrightarrow> script_texts tr2 = xs"
      by (elim exE conjE) (rule that)
    have "trace w' = trace w @ (tr1 @ tr2) \<and> script_texts (tr1 @ tr2) = take (Suc k) (x # xs) \<and>
        (\<forall>v. r = Inr v \<longrightarrow> script_texts (tr1 @ tr2) = x # xs)"
      using ih tr1(1) c by simp
    then show ?thesis by blast
  qed
qed

lemma runMigration_apply_trace:
  assumes "runMigration_apply X P f sql w = (r, w')"
  shows "\<exists>tr k. trace w' = trace w @ tr \<and> script_texts tr = take k (statements_of sql) \<and>
            (\<forall>v. r = Inr v \<longrightarrow> script_texts tr = statements_of sql)"
proof -
  obtain r1 w1 where rs: "run_statements X P (statements_of sql) w = (r1, w1)"
    by (cases "run_statements X P (statements_of sql) w")
  from run_statements_trace [OF statements_of_nonblank rs] obtain tr1 k where
    t1: "trace w1 = trace w @ tr1" "script_texts tr1 = take k (statements_of sql)"
      "\<forall>v. r1 = Inr v \<longrightarrow> script_texts tr1 = statements_of sql"
      by (elim exE conjE) (rule that)
  show ?thesis
  proof (cases r1)
    case (Inl e)
    with assms rs have "r = Inl e" "w' = w1" by (auto simp: runMigration_apply_def)
    with t1 show ?thesis by blast
  next
    case (Inr u)
    then have full: "script_texts tr1 = statements_of sql" using t1(3) by simp
    obtain r2 w2 where q2: "query X P (INSERT_INTO_migrations f) w1 = (r2, w2)"
      by (cases "query X P (INSERT_INTO_migrations f) w1")
    have "\<exists>tr2. trace w2 = trace w1 @ tr2 \<and> script_texts tr2 = []"
      using query_trace_other [OF q2] by simp
    then obtain tr2 where
      t2: "trace w2 = trace w1 @ tr2" "script_texts tr2 = []"
      by (elim exE conjE) (rule that)
    show ?thesis
    proof (cases r2)
      case (Inl e)
      with assms rs Inr q2 have "w' = w2" by (auto simp: runMigration_apply_def)
      then have "trace w' = trace w @ (tr1 @ tr2) \<and>
          script_texts (tr1 @ tr2) = take (length (statements_of sql)) (statements_of sql) \<and>
          (\<forall>v. r = Inr v \<longrightarrow> script_texts (tr1 @ tr2) = statements_of sql)"
        using t1(1) t2 full by simp
      then show ?thesis by blast
    next
      case Inr2: (Inr rows)
      obtain r3 w3 where q3: "query X P COMMIT w2 = (r3, w3)" by (cases "query X P COMMIT w2")
      have "\<exists>tr3. trace w3 = trace w2 @ tr3 \<and> script_texts tr3 = []"
      using query_trace_other [OF q3] by simp
    then obtain tr3 where
        t3: "trace w3 = trace w2 @ tr3" "script_texts tr3 = []"
      by (elim exE conjE) (rule that)
      from assms rs Inr q2 Inr2 q3 have "trace w' = trace w3"
        by (auto simp: runMigration_apply_def split: sum.splits)
      then have "trace w' = trace w @ (tr1 @ tr2 @ tr3) \<and>
          script_texts (tr1 @ tr2 @ tr3) = take (length (statements_of sql)) (statements_of sql) \<and>
          (\<forall>v. r = Inr v \<longrightarrow> script_texts (tr1 @ tr2 @ tr3) = statements_of sql)"
        using t1(1) t2 t3 full by simp
      then show ?thesis by blast
    qed
  qed
qed

lemma runMigration_trace:
  assumes f: "files w f = Some sql" and run: "runMigration X P f w = (r, w')"
  shows "\<exists>tr k. trace w' = trace w @ tr \<and> script_texts tr = take k (statements_of sql) \<and>
            (\<forall>v. r = Inr v \<longrightarrow> script_texts tr = statements_of sql)"
proof -
  let ?w0 = "w\<lparr>logged := logged w @ [Running f]\<rparr>"
  obtain r1 w1 where q1: "query X P BEGIN ?w0 = (r1, w1)" by (cases "query X P BEGIN ?w0")
  have "\<exists>tr1. trace w1 = trace w @ tr1 \<and> script_texts tr1 = []"
      using query_trace_other [OF q1] by simp
    then obtain tr1 where
    t1: "trace w1 = trace w @ tr1" "script_texts tr1 = []"
      by (elim exE conjE) (rule that)
  show ?thesis
  proof (cases r1)
    case (Inl e)
    with run f q1 have "trace w' = trace w1" "r = Inl e"
      by (auto simp: runMigration_def runMigration_try_def)
    then have "trace w' = trace w @ tr1 \<and> script_texts tr1 = take 0 (statements_of sql) \<and>
        (\<forall>v. r = Inr v \<longrightarrow> script_texts tr1 = statements_of sql)"
      using t1 by simp
    then show ?thesis by blast
  next
    case (Inr rows)
    obtain r2 w2 where a: "runMigration_apply X P f sql w1 = (r2, w2)"
      by (cases "runMigration_apply X P f sql w1")
    from runMigration_apply_trace [OF a] obtain tr2 k where
      t2: "trace w2 = trace w1 @ tr2" "script_texts tr2 = take k (statements_of sql)"
        "\<forall>v. r2 = Inr v \<longrightarrow> script_texts tr2 = statements_of sql"
      by (elim exE conjE) (rule that)
    show ?thesis
    proof (cases r2)
      case Inr2: (Inr v)
      with run f q1 Inr a have "trace w' = trace w2" "r = Inr v"
        by (auto simp: runMigration_def runMigration_try_def runMigration_transaction_def)
      then have "trace w' = trace w @ (tr1 @ tr2) \<and> script_texts (tr1 @ tr2) = take k (statements_of sql) \<and>
          (\<forall>v. r = Inr v \<longrightarrow> script_texts (tr1 @ tr2) = statements_of sql)"
        using t1 t2 Inr2 by simp
      then show ?thesis by blast
    next
      case (Inl e)
      obtain r3 w3 where q3: "query X P ROLLBACK w2 = (r3, w3)" by (cases "query X P ROLLBACK w2")
      have "\<exists>tr3. trace w3 = trace w2 @ tr3 \<and> script_texts tr3 = []"
      using query_trace_other [OF q3] by simp
    then obtain tr3 where
        t3: "trace w3 = trace w2 @ tr3" "script_texts tr3 = []"
      by (elim exE conjE) (rule that)
      from run f q1 Inr a Inl q3 have "trace w' = trace w3" "\<forall>v. r \<noteq> Inr v"
        by (auto simp: runMigration_def runMigration_try_def runMigration_transaction_def
            split: sum.splits)
      then have "trace w' = trace w @ (tr1 @ tr2 @ tr3) \<and>
          script_texts (tr1 @ tr2 @ tr3) = take k (statements_of sql) \<and>
          (\<forall>v. r = Inr v \<longrightarrow> script_texts (tr1 @ tr2 @ tr3) = statements_of sql)"
        using t1 t2 t3 by simp
      then show ?thesis by blast
    qed
  qed
qed

lemma new_events_eq: "logged w' = logged w @ es \<Longrightarrow> new_events w w' = es"
  by (simp add: new_events_def)

lemma new_trace_eq: "trace w' = trace w @ tr \<Longrightarrow> new_trace w w' = tr"
  by (simp add: new_trace_def)

lemma started_simps [simp]:
  "started [] = []"
  "started (a @ b) = started a @ started b"
  "started (ev # es) = (case ev of Running f \<Rightarrow> [f] | _ \<Rightarrow> []) @ started es"
  by (simp_all add: started_def)

lemma completed_simps [simp]:
  "completed [] = []"
  "completed (a @ b) = completed a @ completed b"
  "completed (ev # es) = (case ev of Completed f \<Rightarrow> [f] | _ \<Rightarrow> []) @ completed es"
  by (simp_all add: completed_def)

lemma failed_simps [simp]:
  "failed [] = []"
  "failed (a @ b) = failed a @ failed b"
  "failed (ev # es) = (case ev of MigrationFailed f x \<Rightarrow> [(f, x)] | _ \<Rightarrow> []) @ failed es"
  by (simp_all add: failed_def)

lemma prepared_simps [simp]:
  "sessions (db (prepared c w)) = sessions (db w)"
  "directory (prepared c w) = directory w"
  "files (prepared c w) = files w"
  "ledger (prepared c w) = ledger w"
  "migrations (committed (db (prepared c w))) = Some (ledger w)"
  "committed (db (prepared c w)) = ensured_store w"
  by (simp_all add: prepared_def ensured_store_def ledger_def)

lemma read_events_simps [simp]:
  "started (read_events w) = []" "completed (read_events w) = []" "failed (read_events w) = []"
  by (simp_all add: read_events_def split: sum.splits)

lemma prepared_logs [simp]:
  "logged (prepared c w) = logged w @ read_events w"
  "trace (prepared c w) = trace w @ [(c, CREATE_TABLE_IF_NOT_EXISTS_migrations),
                                    (c, SELECT_filename_FROM_migrations)]"
  by (simp_all add: prepared_def ensured_store_def read_events_def)


lemma getStatus_eq:
  "fst (getStatus X P w) =
     Inr \<lparr>total = length (discovered w),
          applied = length (case fst (getRows X P SELECT_filename_FROM_migrations w) of
                              Inl e \<Rightarrow> [] | Inr rows \<Rightarrow> rows),
          pending = length (filter (\<lambda>f. f \<notin> set (case fst (getRows X P SELECT_filename_FROM_migrations w) of
                              Inl e \<Rightarrow> [] | Inr rows \<Rightarrow> rows)) (discovered w)),
          appliedMigrations = (case fst (getRows X P SELECT_filename_FROM_migrations w) of
                              Inl e \<Rightarrow> [] | Inr rows \<Rightarrow> rows),
          pendingMigrations = filter (\<lambda>f. f \<notin> set (case fst (getRows X P SELECT_filename_FROM_migrations w) of
                              Inl e \<Rightarrow> [] | Inr rows \<Rightarrow> rows)) (discovered w)\<rparr>"
proof -
  obtain r w1 where g: "getRows X P SELECT_filename_FROM_migrations w = (r, w1)"
    by (cases "getRows X P SELECT_filename_FROM_migrations w")
  then have "directory w1 = directory w"
    using query_frame [of X P SELECT_filename_FROM_migrations w]
    by (auto simp: getRows_def split: prod.splits sum.splits)
  then have d: "discovered w1 = discovered w"
    "discovered (w1\<lparr>logged := l\<rparr>) = discovered w" for l
    by (simp_all add: discovered_def)
  show ?thesis
    using g d
    by (cases r)
      (simp_all add: getStatus_def getStatus_try_def getAppliedMigrations_def
        getMigrationFiles_eq array_includes_def Let_def)
qed

lemma createMigrationsTable_general:
  assumes "createMigrationsTable X P w = (r, w1)"
  shows "directory w1 = directory w \<and> files w1 = files w \<and>
         (\<exists>tr. trace w1 = trace w @ tr \<and> script_texts tr = []) \<and>
         (\<exists>es. logged w1 = logged w @ es \<and> started es = [])"
proof -
  obtain r0 w0 where q: "query X P CREATE_TABLE_IF_NOT_EXISTS_migrations w = (r0, w0)"
    by (cases "query X P CREATE_TABLE_IF_NOT_EXISTS_migrations w")
  have t: "\<exists>tr. trace w0 = trace w @ tr \<and> script_texts tr = []"
    using query_trace_other [OF q] by simp
  from assms q query_frame [OF q] t show ?thesis
    by (cases r0) (auto simp: createMigrationsTable_def)
qed

lemma getAppliedMigrations_general:
  assumes "getAppliedMigrations X P w = (r, w1)"
  shows "(\<exists>a. r = Inr a) \<and> directory w1 = directory w \<and> files w1 = files w \<and>
         (\<exists>tr. trace w1 = trace w @ tr \<and> script_texts tr = []) \<and>
         (\<exists>es. logged w1 = logged w @ es \<and> started es = [])"
proof -
  obtain r0 w0 where q: "query X P SELECT_filename_FROM_migrations w = (r0, w0)"
    by (cases "query X P SELECT_filename_FROM_migrations w")
  have t: "\<exists>tr. trace w0 = trace w @ tr \<and> script_texts tr = []"
    using query_trace_other [OF q] by simp
  from assms q query_frame [OF q] t show ?thesis
    by (cases r0) (auto simp: getAppliedMigrations_def getRows_def)
qed

lemma runPendingMigrations_unreadable:
  assumes d: "directory w = Inl e" and i: "fst (initialize X P w) = Inr ()"
  shows "fst (runPendingMigrations X P w) = Inr () \<and>
         started (new_events w (snd (runPendingMigrations X P w))) = [] \<and>
         script_texts (new_trace w (snd (runPendingMigrations X P w))) = [] \<and>
         last (logged (snd (runPendingMigrations X P w))) = NoPending"
proof -
  obtain w1 where i1: "createMigrationsTable X P w = (Inr (), w1)"
    using i by (cases "createMigrationsTable X P w") (auto simp: initialize_def)
  from createMigrationsTable_general [OF i1] obtain tr1 es1 where
    f1: "directory w1 = directory w" "trace w1 = trace w @ tr1" "script_texts tr1 = []"
      "logged w1 = logged w @ es1" "started es1 = []"
    by (elim exE conjE) (rule that)
  obtain r2 w2 where a: "getAppliedMigrations X P w1 = (r2, w2)"
    by (cases "getAppliedMigrations X P w1")
  from getAppliedMigrations_general [OF a] obtain ap tr2 es2 where
    f2: "r2 = Inr ap" "directory w2 = directory w1" "trace w2 = trace w1 @ tr2"
      "script_texts tr2 = []" "logged w2 = logged w1 @ es2" "started es2 = []"
    by (elim exE conjE) (rule that)
  have dw2: "directory w2 = Inl e" using f1 f2 d by simp
  let ?w' = "w2\<lparr>logged := logged w2 @ [ReadDirFailed e, NoPending]\<rparr>"
  have run: "runPendingMigrations X P w = (Inr (), ?w')"
    using i1 a f2(1) dw2
    by (simp add: runPendingMigrations_def runPendingMigrations_try_def initialize_def
        getMigrationFiles_def)
  have "logged ?w' = logged w @ (es1 @ es2 @ [ReadDirFailed e, NoPending])"
    using f1 f2 by simp
  then have ne: "new_events w ?w' = es1 @ es2 @ [ReadDirFailed e, NoPending]"
    by (rule new_events_eq)
  have "trace ?w' = trace w @ (tr1 @ tr2)" using f1 f2 by simp
  then have nt: "new_trace w ?w' = tr1 @ tr2" by (rule new_trace_eq)
  show ?thesis using ne nt f1 f2 by (simp add: run)
qed

lemma isMigrationApplied_pinned:
  assumes p: "pinned P c" and o: "sessions (db w) c = None"
  shows "fst (isMigrationApplied X P f w) = Inr (f \<in> set (ledger w)) \<and>
         (migrations (committed (db w)) = None \<longrightarrow>
            fst (getRow X P (SELECT_1_FROM_migrations_WHERE_filename f) w) = Inl UndefinedTableError)"
proof (cases "migrations (committed (db w))")
  case None
  with o show ?thesis
    by (simp add: isMigrationApplied_def getRow_def query_pinned [OF p] db_simps ledger_def)
next
  case (Some r)
  have "(case map (\<lambda>x. js ''1'') (filter (\<lambda>x. x = f) r) of [] \<Rightarrow> None | a # as \<Rightarrow> Some a) \<noteq> None
        \<longleftrightarrow> f \<in> set r"
    by (induction r) auto
  with Some o show ?thesis
    by (simp add: isMigrationApplied_def getRow_def query_pinned [OF p] db_simps ledger_def)
qed









text \<open>The example worlds.\<close>

lemmas demo_defs = demo_exec_def one_connection_def round_robin_def served_on_def timeout_at_def
  good_files_def bad_files_def three_files_def listing_def three_listing_def empty_db_def
  db_after_001_def fresh_world_def half_world_def half_broken_world_def three_world_def
  unreadable_world_def ensured_world_def committing_world_def

lemmas run_defs = runPendingMigrations_def runPendingMigrations_try_def initialize_def
  createMigrationsTable_def getAppliedMigrations_def getRows_def getRow_def query_def
  getMigrationFiles_def runMigration_def runMigration_try_def runMigration_transaction_def
  runMigration_apply_def statements_of_def js_split_def trim_def isWhiteSpace_def endsWith_def
  array_includes_def js_def on_session_def session_view_def session_update_def Let_def
  getStatus_def getStatus_try_def isMigrationApplied_def as_read_def

lemma pinned_one_connection: "pinned one_connection 0"
  by (simp add: pinned_def one_connection_def)


lemma collapse_run: "fst p = a \<Longrightarrow> p = (a, snd p)"
  by (cases p) simp

lemma ensured_001_ok:
  "fst (runMigration demo_exec one_connection (js ''001_init.sql'') ensured_world) = Inr ()"
  by (simp add: demo_defs run_defs)

text \<open>
  A \<^verbatim>\<open>COMMIT\<close> in a script ends the transaction that \<^verbatim>\<open>runMigration\<close> began: when a later
  statement fails, what the script did before its \<^verbatim>\<open>COMMIT\<close> stays applied, on one
  connection too.
\<close>

lemma commit_in_a_script:
  "fst (runMigration demo_exec one_connection (js ''001_init.sql'') committing_world) =
     Inl StatementExecutionError \<and>
   trace (snd (runMigration demo_exec one_connection (js ''001_init.sql'') committing_world)) =
     [(0, BEGIN), (0, Script (js ''CREATE TABLE a(x int)'')), (0, Script (js ''COMMIT'')),
      (0, Script (js ''BAD'')), (0, ROLLBACK)] \<and>
   tables (committed (db (snd (runMigration demo_exec one_connection (js ''001_init.sql'')
     committing_world)))) = [js ''CREATE TABLE a(x int)'']"
  by (simp add: demo_defs run_defs)

section \<open>The claims\<close>

text \<open>
  \<^bold>\<open>C1\<close> (completeness). \<^verbatim>\<open>runMigration\<close> gives \<^verbatim>\<open>BEGIN\<close>, the statements, the
  ledger insert and \<^verbatim>\<open>COMMIT\<close> to \<^verbatim>\<open>pool.query\<close> one by one, so a run can return
  normally without its ledger entries. In the world whose ledger holds \<^verbatim>\<open>001_init.sql\<close>,
  on a pool that serves \<^verbatim>\<open>BEGIN\<close> and the ledger insert on connection 1 and the other
  queries on connection 0, the run returns normally and reports \<^verbatim>\<open>002_add_col.sql\<close>
  completed; the statement of the script is applied; the ledger insert stays in the
  transaction of connection 1, which nothing commits, and the ledger afterwards is still
  \<^verbatim>\<open>001_init.sql\<close> alone, not the two discovered scripts.
\<close>

theorem C1_success_without_ledger_entry:
  "fst (runPendingMigrations demo_exec (served_on [0, 0, 1, 0, 1, 0]) half_world) = Inr () \<and>
   discovered half_world = [js ''001_init.sql'', js ''002_add_col.sql''] \<and>
   ledger half_world = [js ''001_init.sql''] \<and>
   trace (snd (runPendingMigrations demo_exec (served_on [0, 0, 1, 0, 1, 0]) half_world)) =
     [(0, CREATE_TABLE_IF_NOT_EXISTS_migrations), (0, SELECT_filename_FROM_migrations),
      (1, BEGIN), (0, Script (js ''ALTER TABLE t ADD y int'')),
      (1, INSERT_INTO_migrations (js ''002_add_col.sql'')), (0, COMMIT)] \<and>
   completed (logged (snd (runPendingMigrations demo_exec (served_on [0, 0, 1, 0, 1, 0])
     half_world))) = [js ''002_add_col.sql''] \<and>
   tables (committed (db (snd (runPendingMigrations demo_exec (served_on [0, 0, 1, 0, 1, 0])
     half_world)))) =
     [js ''CREATE TABLE t(x int)'', js ''INSERT INTO t VALUES (1)'', js ''ALTER TABLE t ADD y int''] \<and>
   ledger (snd (runPendingMigrations demo_exec (served_on [0, 0, 1, 0, 1, 0]) half_world)) =
     [js ''001_init.sql'']"
  by (simp add: demo_defs run_defs discovered_def ledger_def)



text \<open>
  \<^bold>\<open>C3\<close> (atomicity). \<^verbatim>\<open>runMigration\<close> sends \<^verbatim>\<open>ROLLBACK\<close> before it throws the error
  again, but each statement goes to whichever connection the pool gives it. In the world
  whose ledger holds \<^verbatim>\<open>001_init.sql\<close>, on a pool that serves \<^verbatim>\<open>BEGIN\<close> and
  \<^verbatim>\<open>ROLLBACK\<close> on connection 1 and the two statements of \<^verbatim>\<open>002_add_col.sql\<close> on
  connection 0, the second statement fails and the call fails with its error after
  \<^verbatim>\<open>ROLLBACK\<close>; the transaction that is rolled back is empty, and the first statement,
  which ran outside it, stays applied.
\<close>

theorem C3_first_statement_stays_applied:
  "files half_broken_world (js ''002_add_col.sql'') = Some (js ''ALTER TABLE t ADD y int; BAD'') \<and>
   tables (committed (db half_broken_world)) =
     [js ''CREATE TABLE t(x int)'', js ''INSERT INTO t VALUES (1)''] \<and>
   fst (runMigration demo_exec (served_on [1, 0, 0, 1]) (js ''002_add_col.sql'')
     half_broken_world) = Inl StatementExecutionError \<and>
   trace (snd (runMigration demo_exec (served_on [1, 0, 0, 1]) (js ''002_add_col.sql'')
     half_broken_world)) =
     [(1, BEGIN), (0, Script (js ''ALTER TABLE t ADD y int'')), (0, Script (js ''BAD'')),
      (1, ROLLBACK)] \<and>
   sessions (db (snd (runMigration demo_exec (served_on [1, 0, 0, 1]) (js ''002_add_col.sql'')
     half_broken_world))) 1 = None \<and>
   tables (committed (db (snd (runMigration demo_exec (served_on [1, 0, 0, 1])
     (js ''002_add_col.sql'') half_broken_world)))) =
     [js ''CREATE TABLE t(x int)'', js ''INSERT INTO t VALUES (1)'', js ''ALTER TABLE t ADD y int'']"
  by (simp add: demo_defs run_defs)

text \<open>
  \<^bold>\<open>C4\<close> (abort on failure). With three pending scripts of which the second fails, on a
  pool that serves the first script's \<^verbatim>\<open>BEGIN\<close> and ledger insert and the second
  script's \<^verbatim>\<open>ROLLBACK\<close> on connection 1 and the other queries on connection 0: the run
  fails with the error of the second script and does not start the third, as the claim
  says; but the first script, which is reported completed and whose statements are
  applied, is not in the ledger afterwards. Its ledger insert stayed in the transaction
  of connection 1, which its \<^verbatim>\<open>COMMIT\<close> did not reach and which the \<^verbatim>\<open>ROLLBACK\<close> of the
  second script drops.
\<close>

theorem C4_completed_script_not_in_ledger:
  "pending_of three_world = [js ''001_init.sql'', js ''002_add_col.sql'', js ''003_index.sql''] \<and>
   fst (runPendingMigrations demo_exec (served_on [0, 0, 1, 0, 0, 1, 0, 0, 0, 0, 1])
     three_world) = Inl StatementExecutionError \<and>
   started (logged (snd (runPendingMigrations demo_exec
     (served_on [0, 0, 1, 0, 0, 1, 0, 0, 0, 0, 1]) three_world))) =
     [js ''001_init.sql'', js ''002_add_col.sql''] \<and>
   completed (logged (snd (runPendingMigrations demo_exec
     (served_on [0, 0, 1, 0, 0, 1, 0, 0, 0, 0, 1]) three_world))) = [js ''001_init.sql''] \<and>
   failed (logged (snd (runPendingMigrations demo_exec
     (served_on [0, 0, 1, 0, 0, 1, 0, 0, 0, 0, 1]) three_world))) =
     [(js ''002_add_col.sql'', StatementExecutionError)] \<and>
   last (logged (snd (runPendingMigrations demo_exec
     (served_on [0, 0, 1, 0, 0, 1, 0, 0, 0, 0, 1]) three_world))) =
     ProcessFailed StatementExecutionError \<and>
   map snd (trace (snd (runPendingMigrations demo_exec
     (served_on [0, 0, 1, 0, 0, 1, 0, 0, 0, 0, 1]) three_world))) =
     [CREATE_TABLE_IF_NOT_EXISTS_migrations, SELECT_filename_FROM_migrations,
      BEGIN, Script (js ''CREATE TABLE t(x int)''), Script (js ''INSERT INTO t VALUES (1)''),
      INSERT_INTO_migrations (js ''001_init.sql''), COMMIT,
      BEGIN, Script (js ''ALTER TABLE t ADD y int''), Script (js ''BAD''), ROLLBACK] \<and>
   tables (committed (db (snd (runPendingMigrations demo_exec
     (served_on [0, 0, 1, 0, 0, 1, 0, 0, 0, 0, 1]) three_world)))) =
     [js ''CREATE TABLE t(x int)'', js ''INSERT INTO t VALUES (1)''] \<and>
   ledger (snd (runPendingMigrations demo_exec
     (served_on [0, 0, 1, 0, 0, 1, 0, 0, 0, 0, 1]) three_world)) = []"
  by (simp add: demo_defs run_defs pending_of_def discovered_def ledger_def)

text \<open>
  \<^bold>\<open>C5\<close> (statement splitting). For every script text \<open>sql\<close> that
  \<^verbatim>\<open>runMigration\<close> reads, on any pool and for any executor: the texts that the loop sends
  are, in order, a prefix of the pieces of \<open>sql\<close> at \<^verbatim>\<open>;\<close>, each trimmed, the empty
  ones dropped; they are all of them when the call returns normally. The pieces are
  the text cut at every semicolon and nothing lost: no piece holds a semicolon, and the
  pieces joined with semicolons are the text. Trimming a piece removes white space at its
  two ends only, and all of it. Every statement is non-empty and trimmed, so the test of
  the loop skips none. The text
  \<^verbatim>\<open>"CREATE TABLE t(x int); INSERT INTO t VALUES (1);"\<close> gives exactly two statements,
  and so does the same text with a line end (CR, LF), a tab, a no-break space, an em space
  and a byte order mark around its statements.
\<close>

theorem C5_statement_splitting:
  assumes "files w f = Some sql" and "runMigration X P f w = (r, w')"
  shows "(\<exists>k. script_texts (new_trace w w') =
            take k (filter (\<lambda>s. s \<noteq> []) (map trim (js_split sql (of_char CHR '';''))))) \<and>
         (\<forall>v. r = Inr v \<longrightarrow>
            script_texts (new_trace w w') =
              filter (\<lambda>s. s \<noteq> []) (map trim (js_split sql (of_char CHR '';'')))) \<and>
         js_join (js_split sql (of_char CHR '';'')) (of_char CHR '';'') = sql \<and>
         (\<forall>p \<in> set (js_split sql (of_char CHR '';'')).
            of_char CHR '';'' \<notin> set p \<and>
            (\<exists>a b. p = a @ trim p @ b \<and>
               (\<forall>c \<in> set a. isWhiteSpace c) \<and> (\<forall>c \<in> set b. isWhiteSpace c)) \<and>
            (trim p \<noteq> [] \<longrightarrow>
               \<not> isWhiteSpace (hd (trim p)) \<and> \<not> isWhiteSpace (last (trim p)))) \<and>
         statements_of sql =
           filter (\<lambda>s. s \<noteq> []) (map trim (js_split sql (of_char CHR '';''))) \<and>
         (\<forall>s \<in> set (statements_of sql). s \<noteq> [] \<and> trim s = s) \<and>
         statements_of (js ''CREATE TABLE t(x int); INSERT INTO t VALUES (1);'') =
           [js ''CREATE TABLE t(x int)'', js ''INSERT INTO t VALUES (1)''] \<and>
         statements_of (js ''CREATE TABLE t(x int);'' @ [0x0D, 0x0A, 0x09] @
             js ''INSERT INTO t VALUES (1)'' @ [0xA0, 0x0A] @ js '';'' @ [0x0A, 0x2003, 0xFEFF]) =
           [js ''CREATE TABLE t(x int)'', js ''INSERT INTO t VALUES (1)'']"
proof -
  from runMigration_trace [OF assms] obtain tr k where
    t: "trace w' = trace w @ tr" "script_texts tr = take k (statements_of sql)"
      "\<forall>v. r = Inr v \<longrightarrow> script_texts tr = statements_of sql"
    by (elim exE conjE) (rule that)
  have n: "new_trace w w' = tr" using t(1) by (rule new_trace_eq)
  have c: "statements_of sql =
      filter (\<lambda>s. s \<noteq> []) (map trim (js_split sql (of_char CHR '';'')))"
    by (simp add: statements_of_def)
  have ex: "statements_of (js ''CREATE TABLE t(x int); INSERT INTO t VALUES (1);'') =
           [js ''CREATE TABLE t(x int)'', js ''INSERT INTO t VALUES (1)'']"
    by (simp add: statements_of_def js_split_def js_def trim_def isWhiteSpace_def)
  have ex2: "statements_of (js ''CREATE TABLE t(x int);'' @ [0x0D, 0x0A, 0x09] @
             js ''INSERT INTO t VALUES (1)'' @ [0xA0, 0x0A] @ js '';'' @ [0x0A, 0x2003, 0xFEFF]) =
           [js ''CREATE TABLE t(x int)'', js ''INSERT INTO t VALUES (1)'']"
    by (simp add: statements_of_def js_split_def js_def trim_def isWhiteSpace_def)
  have a: "\<exists>k. script_texts (new_trace w w') =
      take k (filter (\<lambda>s. s \<noteq> []) (map trim (js_split sql (of_char CHR '';''))))"
    using t(2) n c by auto
  have b: "\<forall>v. r = Inr v \<longrightarrow> script_texts (new_trace w w') =
      filter (\<lambda>s. s \<noteq> []) (map trim (js_split sql (of_char CHR '';'')))"
    using t(3) n c by simp
  have d: "js_join (js_split sql (of_char CHR '';'')) (of_char CHR '';'') = sql"
    by (rule js_split_join)
  have e: "\<forall>p \<in> set (js_split sql (of_char CHR '';'')).
            of_char CHR '';'' \<notin> set p \<and>
            (\<exists>a b. p = a @ trim p @ b \<and>
               (\<forall>c \<in> set a. isWhiteSpace c) \<and> (\<forall>c \<in> set b. isWhiteSpace c)) \<and>
            (trim p \<noteq> [] \<longrightarrow>
               \<not> isWhiteSpace (hd (trim p)) \<and> \<not> isWhiteSpace (last (trim p)))"
    using js_split_no_sep trim_spec trim_ends by blast
  have g: "\<forall>s \<in> set (statements_of sql). s \<noteq> [] \<and> trim s = s"
    using statements_of_trimmed by blast
  from a b d e c g ex ex2 show ?thesis by (intro conjI)
qed

theorem C5_witness:
  "files ensured_world (js ''001_init.sql'') =
     Some (js ''CREATE TABLE t(x int); INSERT INTO t VALUES (1);'') \<and>
   fst (runMigration demo_exec one_connection (js ''001_init.sql'') ensured_world) = Inr () \<and>
   js_split (js ''CREATE TABLE t(x int); INSERT INTO t VALUES (1);'') (of_char CHR '';'') =
     [js ''CREATE TABLE t(x int)'', js '' INSERT INTO t VALUES (1)'', []] \<and>
   script_texts (new_trace ensured_world
     (snd (runMigration demo_exec one_connection (js ''001_init.sql'') ensured_world))) =
     [js ''CREATE TABLE t(x int)'', js ''INSERT INTO t VALUES (1)'']"
proof -
  let ?f = "js ''001_init.sql''"
  let ?sql = "js ''CREATE TABLE t(x int); INSERT INTO t VALUES (1);''"
  have h1: "files ensured_world ?f = Some ?sql"
    by (simp add: demo_defs js_def)
  have h2: "runMigration demo_exec one_connection ?f ensured_world =
      (Inr (), snd (runMigration demo_exec one_connection ?f ensured_world))"
    using ensured_001_ok by (rule collapse_run)
  have s: "js_split ?sql (of_char CHR '';'') =
      [js ''CREATE TABLE t(x int)'', js '' INSERT INTO t VALUES (1)'', []]"
    by (simp add: js_split_def js_def)
  have t: "filter (\<lambda>s. s \<noteq> []) (map trim
      [js ''CREATE TABLE t(x int)'', js '' INSERT INTO t VALUES (1)'', []]) =
      [js ''CREATE TABLE t(x int)'', js ''INSERT INTO t VALUES (1)'']"
    by (simp add: js_def trim_def isWhiteSpace_def)
  from C5_statement_splitting [OF h1 h2] have
    "script_texts (new_trace ensured_world
       (snd (runMigration demo_exec one_connection ?f ensured_world))) =
     filter (\<lambda>s. s \<noteq> []) (map trim (js_split ?sql (of_char CHR '';'')))"
    by blast
  then show ?thesis using h1 ensured_001_ok s t by simp
qed

text \<open>
  \<^bold>\<open>C6\<close> (status, as amended). \<^verbatim>\<open>getStatus\<close> does not fail when a read fails: on
  every pool and in every state it returns a status. Its counts are the lengths of its
  lists; the pending list is the discovered list without the applied list. When the ledger
  query fails the applied list is empty and every discovered script is reported pending;
  when the directory cannot be read the total is 0 and nothing is pending.
\<close>

theorem C6_getStatus_does_not_fail:
  "\<exists>st. fst (getStatus X P w) = Inr st \<and>
      total st = length (discovered w) \<and>
      applied st = length (appliedMigrations st) \<and>
      pending st = length (pendingMigrations st) \<and>
      pendingMigrations st = filter (\<lambda>f. f \<notin> set (appliedMigrations st)) (discovered w) \<and>
      (\<forall>e. fst (getRows X P SELECT_filename_FROM_migrations w) = Inl e \<longrightarrow>
         appliedMigrations st = [] \<and> pendingMigrations st = discovered w) \<and>
      (\<forall>e. directory w = Inl e \<longrightarrow> total st = 0 \<and> pendingMigrations st = [])"
  by (auto simp: getStatus_eq discovered_def)

theorem C6_counterexample:
  "directory unreadable_world = Inl DirectoryReadError \<and>
   fst (getRows demo_exec one_connection SELECT_filename_FROM_migrations unreadable_world) =
     Inl UndefinedTableError \<and>
   fst (getStatus demo_exec one_connection unreadable_world) =
     Inr \<lparr>total = 0, applied = 0, pending = 0, appliedMigrations = [], pendingMigrations = []\<rparr>"
  by (simp add: demo_defs run_defs)

theorem C6_witness:
  "directory unreadable_world = Inl DirectoryReadError \<and>
   fst (getRows demo_exec one_connection SELECT_filename_FROM_migrations unreadable_world) =
     Inl UndefinedTableError \<and>
   (\<exists>st. fst (getStatus demo_exec one_connection unreadable_world) = Inr st \<and>
      total st = 0 \<and> appliedMigrations st = [] \<and> pendingMigrations st = [])"
proof -
  have h1: "directory unreadable_world = Inl DirectoryReadError" by (simp add: demo_defs)
  have h2: "fst (getRows demo_exec one_connection SELECT_filename_FROM_migrations unreadable_world) =
     Inl UndefinedTableError"
    by (simp add: demo_defs getRows_def query_def on_session_def session_view_def)
  from C6_getStatus_does_not_fail [of demo_exec one_connection unreadable_world] h1 h2
  show ?thesis by auto
qed

text \<open>
  \<^bold>\<open>C7\<close> (fail open). When the directory read fails, \<^verbatim>\<open>getMigrationFiles\<close> logs
  the error and returns the empty list; when the ledger list query fails (whatever the
  cause), \<^verbatim>\<open>getAppliedMigrations\<close> logs the error and returns the empty list. The
  callers go on with the empty list: \<^verbatim>\<open>runPendingMigrations\<close> with an unreadable
  directory returns normally, starts no script, sends no script statement and ends with
  "No pending migrations"; \<^verbatim>\<open>getStatus\<close> with a failed ledger query reports nothing
  applied and every discovered script pending.
\<close>

theorem C7_fail_open:
  "(\<forall>e. directory w = Inl e \<longrightarrow>
      getMigrationFiles w = (Inr [], w\<lparr>logged := logged w @ [ReadDirFailed e]\<rparr>)) \<and>
   (\<forall>e. fst (getRows X P SELECT_filename_FROM_migrations w) = Inl e \<longrightarrow>
      fst (getAppliedMigrations X P w) = Inr [] \<and>
      last (logged (snd (getAppliedMigrations X P w))) = GetAppliedFailed e) \<and>
   (\<forall>e. directory w = Inl e \<longrightarrow> fst (initialize X P w) = Inr () \<longrightarrow>
      fst (runPendingMigrations X P w) = Inr () \<and>
      started (new_events w (snd (runPendingMigrations X P w))) = [] \<and>
      script_texts (new_trace w (snd (runPendingMigrations X P w))) = [] \<and>
      last (logged (snd (runPendingMigrations X P w))) = NoPending) \<and>
   (\<forall>e. fst (getRows X P SELECT_filename_FROM_migrations w) = Inl e \<longrightarrow>
      (\<exists>st. fst (getStatus X P w) = Inr st \<and> applied st = 0 \<and>
            appliedMigrations st = [] \<and> pendingMigrations st = discovered w))"
proof -
  have a: "getMigrationFiles w = (Inr [], w\<lparr>logged := logged w @ [ReadDirFailed e]\<rparr>)"
    if "directory w = Inl e" for e
    using that by (simp add: getMigrationFiles_def)
  have b: "fst (getAppliedMigrations X P w) = Inr [] \<and>
      last (logged (snd (getAppliedMigrations X P w))) = GetAppliedFailed e"
    if "fst (getRows X P SELECT_filename_FROM_migrations w) = Inl e" for e
    using that
    by (cases "getRows X P SELECT_filename_FROM_migrations w")
      (simp add: getAppliedMigrations_def)
  have c: "\<exists>st. fst (getStatus X P w) = Inr st \<and> applied st = 0 \<and>
            appliedMigrations st = [] \<and> pendingMigrations st = discovered w"
    if "fst (getRows X P SELECT_filename_FROM_migrations w) = Inl e" for e
    using that by (simp add: getStatus_eq)
  from a b c runPendingMigrations_unreadable [of w _ X P] show ?thesis by blast
qed

theorem C7_witness:
  "directory unreadable_world = Inl DirectoryReadError \<and>
   getMigrationFiles unreadable_world =
     (Inr [], unreadable_world\<lparr>logged := logged unreadable_world @ [ReadDirFailed DirectoryReadError]\<rparr>) \<and>
   fst (getRows demo_exec one_connection SELECT_filename_FROM_migrations unreadable_world) =
     Inl UndefinedTableError \<and>
   fst (getAppliedMigrations demo_exec one_connection unreadable_world) = Inr [] \<and>
   fst (initialize demo_exec one_connection unreadable_world) = Inr () \<and>
   fst (runPendingMigrations demo_exec one_connection unreadable_world) = Inr () \<and>
   started (new_events unreadable_world
     (snd (runPendingMigrations demo_exec one_connection unreadable_world))) = [] \<and>
   last (logged (snd (runPendingMigrations demo_exec one_connection unreadable_world))) = NoPending"
proof -
  have h1: "directory unreadable_world = Inl DirectoryReadError" by (simp add: demo_defs)
  have h2: "fst (getRows demo_exec one_connection SELECT_filename_FROM_migrations unreadable_world) =
     Inl UndefinedTableError"
    by (simp add: demo_defs getRows_def query_def on_session_def session_view_def)
  have h3: "fst (initialize demo_exec one_connection unreadable_world) = Inr ()"
    by (simp add: demo_defs initialize_def createMigrationsTable_def query_def on_session_def
        session_view_def session_update_def)
  from C7_fail_open [of unreadable_world demo_exec one_connection] h1 h2 h3
  show ?thesis by simp
qed




text \<open>
  \<^bold>\<open>C9\<close> (one connection for a script's transaction). \<^verbatim>\<open>runMigration\<close> gives each
  statement to \<^verbatim>\<open>pool.query\<close>, so the connection of each is the pool's choice. On a pool
  of ten connections that serves successive queries in turn, the script
  \<^verbatim>\<open>002_add_col.sql\<close> with a failing second statement runs \<^verbatim>\<open>BEGIN\<close>, its two
  statements and \<^verbatim>\<open>ROLLBACK\<close> on four different connections, and its first statement
  stays applied after the failure.
\<close>

theorem C9_queries_on_different_connections:
  "fst (runMigration demo_exec round_robin (js ''002_add_col.sql'') half_broken_world) =
     Inl StatementExecutionError \<and>
   trace (snd (runMigration demo_exec round_robin (js ''002_add_col.sql'') half_broken_world)) =
     [(0, BEGIN), (1, Script (js ''ALTER TABLE t ADD y int'')), (2, Script (js ''BAD'')),
      (3, ROLLBACK)] \<and>
   tables (committed (db (snd (runMigration demo_exec round_robin (js ''002_add_col.sql'')
      half_broken_world)))) =
     [js ''CREATE TABLE t(x int)'', js ''INSERT INTO t VALUES (1)'', js ''ALTER TABLE t ADD y int'']"
  by (simp add: demo_defs run_defs)

text \<open>
  \<^bold>\<open>C10\<close> (point lookup). \<^verbatim>\<open>isMigrationApplied\<close> never fails. It returns false
  when the lookup query fails and when the query returns no row. On a pool that serves the
  call on one connection with no transaction open its result is whether the filename is in
  the ledger, where a missing ledger table (the query fails) reads as the empty ledger: the
  result does not tell "not applied" from "ledger unreadable".
\<close>

theorem C10_isMigrationApplied:
  "(\<exists>b. fst (isMigrationApplied X P f w) = Inr b) \<and>
   (\<forall>e. fst (getRow X P (SELECT_1_FROM_migrations_WHERE_filename f) w) = Inl e \<longrightarrow>
      fst (isMigrationApplied X P f w) = Inr False) \<and>
   (fst (getRow X P (SELECT_1_FROM_migrations_WHERE_filename f) w) = Inr None \<longrightarrow>
      fst (isMigrationApplied X P f w) = Inr False) \<and>
   (pinned P c \<longrightarrow> sessions (db w) c = None \<longrightarrow>
      fst (isMigrationApplied X P f w) = Inr (f \<in> set (ledger w)) \<and>
      (migrations (committed (db w)) = None \<longrightarrow>
         fst (getRow X P (SELECT_1_FROM_migrations_WHERE_filename f) w) = Inl UndefinedTableError))"
proof -
  have "(\<exists>b. fst (isMigrationApplied X P f w) = Inr b) \<and>
   (\<forall>e. fst (getRow X P (SELECT_1_FROM_migrations_WHERE_filename f) w) = Inl e \<longrightarrow>
      fst (isMigrationApplied X P f w) = Inr False) \<and>
   (fst (getRow X P (SELECT_1_FROM_migrations_WHERE_filename f) w) = Inr None \<longrightarrow>
      fst (isMigrationApplied X P f w) = Inr False)"
    by (cases "getRow X P (SELECT_1_FROM_migrations_WHERE_filename f) w")
      (auto simp: isMigrationApplied_def split: sum.splits)
  with isMigrationApplied_pinned [of P c w X f] show ?thesis by blast
qed

theorem C10_witness:
  "pinned one_connection 0 \<and> sessions (db half_world) 0 = None \<and>
   sessions (db fresh_world) 0 = None \<and>
   fst (isMigrationApplied demo_exec one_connection (js ''001_init.sql'') half_world) = Inr True \<and>
   fst (isMigrationApplied demo_exec one_connection (js ''002_add_col.sql'') half_world) = Inr False \<and>
   migrations (committed (db fresh_world)) = None \<and>
   fst (getRow demo_exec one_connection
     (SELECT_1_FROM_migrations_WHERE_filename (js ''002_add_col.sql'')) fresh_world) =
     Inl UndefinedTableError \<and>
   fst (isMigrationApplied demo_exec one_connection (js ''002_add_col.sql'') fresh_world) = Inr False"
proof -
  have h1: "sessions (db half_world) 0 = None" "sessions (db fresh_world) 0 = None"
    by (simp_all add: demo_defs)
  have l: "ledger half_world = [js ''001_init.sql'']" "ledger fresh_world = []"
    "migrations (committed (db fresh_world)) = None"
    by (simp_all add: demo_defs ledger_def)
  have ne: "js ''002_add_col.sql'' \<noteq> js ''001_init.sql''" by (simp add: js_def)
  from C10_isMigrationApplied [of demo_exec one_connection "js ''001_init.sql''" half_world 0]
    C10_isMigrationApplied [of demo_exec one_connection "js ''002_add_col.sql''" half_world 0]
    C10_isMigrationApplied [of demo_exec one_connection "js ''002_add_col.sql''" fresh_world 0]
    pinned_one_connection h1 l ne
  show ?thesis by simp
qed


end
